theory Spec2Isabelle
  imports Main
begin

section \<open>Data model of fix.py\<close>

text \<open>
  The dataclass \<open>Record\<close> (fix.py, lines 14-22). The field \<open>id\<close> is \<open>str | None\<close>;
  \<open>ttl\<close> is a Python integer. Two values of a frozen dataclass are equal when all seven
  fields are equal, which is the equality of the HOL record.
\<close>

record Record =
  rec_id :: "string option"
  zone_id :: string
  rec_type :: string
  content :: string
  proxiable :: bool
  proxied :: bool
  ttl :: int

text \<open>
  \<open>Record.data\<close> (lines 24-25): the fields of the record without \<open>id\<close> and \<open>zone_id\<close>.
\<close>

record data_dict =
  d_type :: string
  d_content :: string
  d_proxiable :: bool
  d_proxied :: bool
  d_ttl :: int

definition data :: "Record \<Rightarrow> data_dict" where
  "data r = \<lparr>d_type = rec_type r, d_content = content r, d_proxiable = proxiable r,
             d_proxied = proxied r, d_ttl = ttl r\<rparr>"

text \<open>
  The dictionaries \<open>desired\<close> and \<open>current\<close> map a hostname to a \<open>Record\<close>. The
  batches are built from key sets (\<open>desired.keys() - current.keys()\<close>), whose iteration
  order Python leaves open, so a dictionary is modelled as a map and no order is fixed.
\<close>

type_synonym dict = "string \<rightharpoonup> Record"

text \<open>
  What the provider returns, as far as the program reads it: a zone has an id and a name
  (lines 40-42, 77-80), a tunnel an id and a name (lines 51-54), an ingress element an
  optional hostname (lines 56-58), a DNS record the eight fields read in lines 84-91.
\<close>

record zone =
  z_id :: string
  z_name :: string

record tunnel =
  t_id :: string
  t_name :: string

record ingress =
  hostname :: "string option"

record dns_record =
  dr_name :: string
  dr_id :: string
  dr_zone_id :: string
  dr_type :: string
  dr_content :: string
  dr_proxiable :: bool
  dr_proxied :: bool
  dr_ttl :: int

text \<open>
  The provider as the run reads it. \<open>tunnels()\<close> and \<open>zones()\<close> are cached (lines 28-35),
  every tunnel configuration and every zone's record list is fetched once, and all of these
  reads come before the first write (lines 97-98), so the reads of one run are a snapshot.
  The listing calls are taken to answer with well-formed data.
\<close>

record provider =
  cfd_tunnels :: "tunnel list"
  cf_zones :: "zone list"
  cfd_configurations :: "string \<Rightarrow> ingress list"
  dns_records_get :: "string \<Rightarrow> dns_record list"

text \<open>
  The writes: \<open>dns_records.post(zone_id, data={name, ...})\<close> (line 118),
  \<open>dns_records.patch(zone_id, id, data={name, ...})\<close> (line 170) and
  \<open>dns_records.delete(zone_id, id)\<close> (line 142).
\<close>

datatype call =
  Post string string data_dict
| Patch string "string option" string data_dict
| Delete string "string option"

text \<open>
  The exceptions the program itself can raise: the \<open>ValueError\<close> of line 43 with its
  message, and the \<open>EOFError\<close> of \<open>input\<close> when the standard input has ended.
\<close>

datatype error = ValueError string | EOFError

section \<open>String operations\<close>

text \<open>
  \<open>s.split(sep)\<close> for a separator of one character, \<open>sep.join(ws)\<close> and
  \<open>s.endswith(suffix)\<close>.
\<close>

fun str_split :: "char \<Rightarrow> string \<Rightarrow> string list" where
  "str_split sep [] = [[]]"
| "str_split sep (c # cs) =
     (if c = sep then [] # str_split sep cs
      else (case str_split sep cs of [] \<Rightarrow> [[c]] | w # ws \<Rightarrow> (c # w) # ws))"

fun str_join :: "string \<Rightarrow> string list \<Rightarrow> string" where
  "str_join sep [] = []"
| "str_join sep [w] = w"
| "str_join sep (w # v # ws) = w @ sep @ str_join sep (v # ws)"

definition endswith :: "string \<Rightarrow> string \<Rightarrow> bool" where
  "endswith s suffix =
     (length suffix \<le> length s \<and> drop (length s - length suffix) s = suffix)"

section \<open>The three batches\<close>

text \<open>Line 106: \<open>{k: desired[k] for k in desired.keys() - current.keys()}\<close>.\<close>

definition create_records :: "dict \<Rightarrow> dict \<Rightarrow> dict" where
  "create_records des cur = (\<lambda>k. if k \<in> dom des - dom cur then des k else None)"

text \<open>
  Lines 126-130: \<open>{k: current[k] for k in current.keys() - desired.keys()
  if k.endswith(".cfargotunnel.com")}\<close>. The test is on the key \<open>k\<close>, the hostname.
\<close>

definition delete_records :: "dict \<Rightarrow> dict \<Rightarrow> dict" where
  "delete_records des cur =
     (\<lambda>k. if k \<in> dom cur - dom des \<and> endswith k ''.cfargotunnel.com'' then cur k else None)"

text \<open>
  Lines 148-150: \<open>Record(**{**asdict(desired_record), "id": current_record.id})\<close>.
\<close>

definition truedesire :: "Record \<Rightarrow> Record \<Rightarrow> Record" where
  "truedesire desired_record current_record = desired_record\<lparr>rec_id := rec_id current_record\<rparr>"

text \<open>
  Lines 152-156: for \<open>k\<close> in \<open>desired.keys() & current.keys()\<close>, that is where both
  lookups succeed, keep \<open>truedesire(desired[k], current[k])\<close> if it differs from
  \<open>current[k]\<close>.
\<close>

definition update_records :: "dict \<Rightarrow> dict \<Rightarrow> dict" where
  "update_records des cur =
     (\<lambda>k. case (des k, cur k) of
            (Some d, Some c) \<Rightarrow> (if truedesire d c \<noteq> c then Some (truedesire d c) else None)
          | _ \<Rightarrow> None)"

section \<open>Zone directory and desired state\<close>

text \<open>
  \<open>zone_name_to_id\<close> (lines 38-43): the first zone of \<open>zones()\<close> with that name, or the
  \<open>ValueError\<close>. The zone list is the snapshot of the run, passed as an argument. The
  cache of line 38 keeps results only, never an exception, and the list does not change,
  so a cached call returns what the loop returns.
\<close>

fun zone_name_to_id :: "zone list \<Rightarrow> string \<Rightarrow> error + string" where
  "zone_name_to_id [] zone_name = Inl (ValueError (''zone '' @ zone_name @ '' not found''))"
| "zone_name_to_id (z # zs) zone_name =
     (if z_name z = zone_name then Inr (z_id z) else zone_name_to_id zs zone_name)"

text \<open>Line 58: \<open>".".join(elem["hostname"].split(".")[1:])\<close>.\<close>

definition zone_name :: "string \<Rightarrow> string" where
  "zone_name h = str_join ''.'' (drop 1 (str_split CHR ''.'' h))"

text \<open>
  \<open>desired\<close> (lines 46-69). The inner loop over the ingress elements of one tunnel
  (lines 55-68), with the dictionary built so far; the exception of \<open>zone_name_to_id\<close>
  leaves both loops.
\<close>

fun desired_ingress :: "zone list \<Rightarrow> string \<Rightarrow> ingress list \<Rightarrow> dict \<Rightarrow> error + dict" where
  "desired_ingress zs tid [] des = Inr des"
| "desired_ingress zs tid (elem # elems) des =
     (case hostname elem of
        None \<Rightarrow> desired_ingress zs tid elems des
      | Some h \<Rightarrow>
          (case zone_name_to_id zs (zone_name h) of
             Inl e \<Rightarrow> Inl e
           | Inr zid \<Rightarrow>
               desired_ingress zs tid elems
                 (des(h \<mapsto> \<lparr>rec_id = None, zone_id = zid, rec_type = ''CNAME'',
                     content = tid @ ''.cfargotunnel.com'', proxiable = True,
                     proxied = True, ttl = 1\<rparr>))))"

text \<open>The outer loop over the tunnels (lines 48-68).\<close>

fun desired_tunnels :: "provider \<Rightarrow> tunnel list \<Rightarrow> dict \<Rightarrow> error + dict" where
  "desired_tunnels p [] des = Inr des"
| "desired_tunnels p (t # ts) des =
     (case desired_ingress (cf_zones p) (t_id t) (cfd_configurations p (t_id t)) des of
        Inl e \<Rightarrow> Inl e
      | Inr des' \<Rightarrow> desired_tunnels p ts des')"

definition desired :: "provider \<Rightarrow> error + dict" where
  "desired p = desired_tunnels p (cfd_tunnels p) Map.empty"

section \<open>Current state\<close>

text \<open>\<open>current\<close> (lines 72-93): the record built in lines 84-92, and the two loops.\<close>

definition current_record :: "dns_record \<Rightarrow> Record" where
  "current_record r =
     \<lparr>rec_id = Some (dr_id r), zone_id = dr_zone_id r, rec_type = dr_type r,
      content = dr_content r, proxiable = dr_proxiable r, proxied = dr_proxied r,
      ttl = dr_ttl r\<rparr>"

definition current :: "provider \<Rightarrow> dict" where
  "current p =
     fold (\<lambda>zone. fold (\<lambda>r records. records(dr_name r \<mapsto> current_record r))
                       (dns_records_get p (z_id zone)))
          (cf_zones p) Map.empty"

section \<open>Applying the batches\<close>

text \<open>
  The state of a run: the two dictionary objects that \<open>process\<close> builds and hands to
  \<open>create\<close>, \<open>update\<close> and \<open>delete\<close> by reference, the lines still to be read from the
  standard input, and the writes sent to the provider so far, one set per applied batch
  (the order of the calls inside a batch is the iteration order of a key set, which Python
  leaves open). Logging and printing are left out. The writes are taken to succeed.
\<close>

record world =
  desired_obj :: dict
  current_obj :: dict
  stdin :: "string list"
  calls :: "call set list"

text \<open>\<open>input(...)\<close>: the next line of the standard input, \<open>EOFError\<close> at its end.\<close>

definition input :: "world \<Rightarrow> error + (string \<times> world)" where
  "input w = (case stdin w of [] \<Rightarrow> Inl EOFError | a # rest \<Rightarrow> Inr (a, w\<lparr>stdin := rest\<rparr>))"

text \<open>
  The condition of lines 113, 138 and 163, \<open>prompt and input("Proceed? [y/N] ") != "y"\<close>:
  \<open>input\<close> is called only when \<open>prompt\<close> is true.
\<close>

definition declined :: "bool \<Rightarrow> world \<Rightarrow> error + (bool \<times> world)" where
  "declined prompt w =
     (if prompt
      then (case input w of Inl e \<Rightarrow> Inl e | Inr (a, w') \<Rightarrow> Inr (a \<noteq> ''y'', w'))
      else Inr (False, w))"

text \<open>The calls of the loops in lines 116-121, 166-174 and 140-142.\<close>

definition post_calls :: "dict \<Rightarrow> call set" where
  "post_calls records =
     (\<lambda>(entry, props). Post (zone_id props) entry (data props)) ` Map.graph records"

definition patch_calls :: "dict \<Rightarrow> call set" where
  "patch_calls records =
     (\<lambda>(entry, props). Patch (zone_id props) (rec_id props) entry (data props)) ` Map.graph records"

definition delete_calls :: "dict \<Rightarrow> call set" where
  "delete_calls records =
     (\<lambda>(entry, props). Delete (zone_id props) (rec_id props)) ` Map.graph records"

text \<open>\<open>create\<close> (lines 104-121).\<close>

definition create :: "bool \<Rightarrow> world \<Rightarrow> error option \<times> world" where
  "create prompt w =
     (let records = create_records (desired_obj w) (current_obj w) in
      if records = Map.empty then (None, w)
      else (case declined prompt w of
              Inl e \<Rightarrow> (Some e, w)
            | Inr (no, w') \<Rightarrow>
                if no then (None, w')
                else (None, w'\<lparr>calls := calls w' @ [post_calls records]\<rparr>)))"

text \<open>\<open>update\<close> (lines 145-174).\<close>

definition update :: "bool \<Rightarrow> world \<Rightarrow> error option \<times> world" where
  "update prompt w =
     (let records = update_records (desired_obj w) (current_obj w) in
      if records = Map.empty then (None, w)
      else (case declined prompt w of
              Inl e \<Rightarrow> (Some e, w)
            | Inr (no, w') \<Rightarrow>
                if no then (None, w')
                else (None, w'\<lparr>calls := calls w' @ [patch_calls records]\<rparr>)))"

text \<open>
  \<open>delete\<close> (lines 124-142). The branch of line 138 only logs (line 139) and has no
  \<open>return\<close>: the loop of lines 140-142 runs whatever the answer was.
\<close>

definition delete :: "bool \<Rightarrow> world \<Rightarrow> error option \<times> world" where
  "delete prompt w =
     (let records = delete_records (desired_obj w) (current_obj w) in
      if records = Map.empty then (None, w)
      else (case declined prompt w of
              Inl e \<Rightarrow> (Some e, w)
            | Inr (no, w') \<Rightarrow> (None, w'\<lparr>calls := calls w' @ [delete_calls records]\<rparr>)))"

text \<open>
  \<open>process\<close> (lines 96-101): an exception of \<open>desired\<close> ends the run before \<open>current\<close>
  is called; an exception of one step ends the run there.
\<close>

definition process :: "provider \<Rightarrow> bool \<Rightarrow> world \<Rightarrow> error option \<times> world" where
  "process p prompt w =
     (case desired p of
        Inl e \<Rightarrow> (Some e, w)
      | Inr des \<Rightarrow>
          (case create prompt (w\<lparr>desired_obj := des, current_obj := current p\<rparr>) of
             (Some e, w1) \<Rightarrow> (Some e, w1)
           | (None, w1) \<Rightarrow>
               (case update prompt w1 of
                  (Some e, w2) \<Rightarrow> (Some e, w2)
                | (None, w2) \<Rightarrow> delete prompt w2)))"

section \<open>Example inputs\<close>

text \<open>
  Provider snapshots at which the theorems below are instantiated. The first is the
  account of the specification's example 1: one tunnel \<open>T1\<close> routing \<open>a.example.com\<close>
  (and a catch-all rule without hostname), the zone \<open>example.com\<close>, no DNS records yet.
\<close>

definition example1_provider :: provider where
  "example1_provider =
     \<lparr>cfd_tunnels = [\<lparr>t_id = ''T1'', t_name = ''one''\<rparr>],
      cf_zones = [\<lparr>z_id = ''Z'', z_name = ''example.com''\<rparr>],
      cfd_configurations = (\<lambda>tid. [\<lparr>hostname = Some ''a.example.com''\<rparr>, \<lparr>hostname = None\<rparr>]),
      dns_records_get = (\<lambda>zid. [])\<rparr>"

text \<open>
  Two tunnels that both route \<open>app.example.com\<close>; the second also routes
  \<open>api.foo.example.com\<close>, whose zone is \<open>foo.example.com\<close>.
\<close>

definition example2_provider :: provider where
  "example2_provider =
     \<lparr>cfd_tunnels = [\<lparr>t_id = ''T1'', t_name = ''one''\<rparr>, \<lparr>t_id = ''T2'', t_name = ''two''\<rparr>],
      cf_zones = [\<lparr>z_id = ''Z1'', z_name = ''example.com''\<rparr>,
                  \<lparr>z_id = ''Z2'', z_name = ''foo.example.com''\<rparr>],
      cfd_configurations =
        (\<lambda>tid. if tid = ''T1''
               then [\<lparr>hostname = Some ''app.example.com''\<rparr>, \<lparr>hostname = None\<rparr>]
               else [\<lparr>hostname = Some ''api.foo.example.com''\<rparr>,
                     \<lparr>hostname = Some ''app.example.com''\<rparr>, \<lparr>hostname = None\<rparr>]),
      dns_records_get = (\<lambda>zid. [])\<rparr>"

text \<open>
  The account of the specification's example 5: the only ingress hostname is
  \<open>x.unknown-domain.test\<close> and no zone is named \<open>unknown-domain.test\<close>.
\<close>

definition example5_provider :: provider where
  "example5_provider =
     \<lparr>cfd_tunnels = [\<lparr>t_id = ''T1'', t_name = ''one''\<rparr>],
      cf_zones = [\<lparr>z_id = ''Z'', z_name = ''example.com''\<rparr>],
      cfd_configurations = (\<lambda>tid. [\<lparr>hostname = Some ''x.unknown-domain.test''\<rparr>]),
      dns_records_get = (\<lambda>zid. [])\<rparr>"

text \<open>An account whose only ingress hostname, \<open>localhost\<close>, has a single label.\<close>

definition example9_provider :: provider where
  "example9_provider =
     \<lparr>cfd_tunnels = [\<lparr>t_id = ''T1'', t_name = ''one''\<rparr>],
      cf_zones = [\<lparr>z_id = ''Z'', z_name = ''example.com''\<rparr>],
      cfd_configurations = (\<lambda>tid. [\<lparr>hostname = Some ''localhost''\<rparr>]),
      dns_records_get = (\<lambda>zid. [])\<rparr>"

section \<open>Delete-set scoping\<close>

text \<open>
  C1. The claim: a hostname of \<open>current\<close> that is not in \<open>desired\<close> is in the delete set
  exactly when the content of its record ends with \<open>.cfargotunnel.com\<close>. The code tests
  the hostname instead (line 129). With \<open>desired\<close> empty and \<open>current\<close> holding the tunnel
  CNAME \<open>b.example.com\<close> (content \<open>T3.cfargotunnel.com\<close>) and the address record
  \<open>x.cfargotunnel.com\<close> (content \<open>203.0.113.5\<close>), the delete set leaves out the first,
  which the claim puts in, and holds the second, which the claim keeps out.
\<close>

theorem delete_records_tests_hostname:
  "delete_records Map.empty
     [''b.example.com'' \<mapsto> \<lparr>rec_id = Some ''rec2'', zone_id = ''Z'', rec_type = ''CNAME'',
         content = ''T3.cfargotunnel.com'', proxiable = True, proxied = True, ttl = 1\<rparr>,
      ''x.cfargotunnel.com'' \<mapsto> \<lparr>rec_id = Some ''rec3'', zone_id = ''Z'', rec_type = ''A'',
         content = ''203.0.113.5'', proxiable = True, proxied = False, ttl = 1\<rparr>]
   = [''x.cfargotunnel.com'' \<mapsto> \<lparr>rec_id = Some ''rec3'', zone_id = ''Z'', rec_type = ''A'',
         content = ''203.0.113.5'', proxiable = True, proxied = False, ttl = 1\<rparr>]
   \<and> endswith ''T3.cfargotunnel.com'' ''.cfargotunnel.com''
   \<and> \<not> endswith ''203.0.113.5'' ''.cfargotunnel.com''"
  by (auto simp: delete_records_def endswith_def fun_eq_iff)

section \<open>The apex domain of a hostname\<close>

text \<open>
  Splitting at the dots, dropping the first piece and joining the rest with dots removes
  the first label together with its dot; a hostname without a dot loses everything.
\<close>

lemma str_split_ne: "str_split sep s \<noteq> []"
  by (induction s) (auto split: list.splits)

lemma str_split_takeWhile:
  "str_split sep s = takeWhile (\<lambda>c. c \<noteq> sep) s #
     (if sep \<in> set s then str_split sep (tl (dropWhile (\<lambda>c. c \<noteq> sep) s)) else [])"
  by (induction s) (auto split: list.splits simp: str_split_ne)

lemma str_join_split: "str_join [sep] (str_split sep s) = s"
proof (induction s)
  case Nil
  then show ?case by simp
next
  case (Cons c cs)
  then show ?case
    by (cases "str_split sep cs"; cases "tl (str_split sep cs)") (auto simp: str_split_ne)
qed

lemma zone_name_drop:
  "zone_name h = drop (Suc (length (takeWhile (\<lambda>c. c \<noteq> CHR ''.'') h))) h"
proof (cases "CHR ''.'' \<in> set h")
  case True
  have "zone_name h = str_join ''.'' (str_split CHR ''.'' (tl (dropWhile (\<lambda>c. c \<noteq> CHR ''.'') h)))"
    unfolding zone_name_def by (subst str_split_takeWhile) (simp add: True)
  also have "\<dots> = tl (dropWhile (\<lambda>c. c \<noteq> CHR ''.'') h)"
    by (rule str_join_split)
  also have "\<dots> = drop (Suc (length (takeWhile (\<lambda>c. c \<noteq> CHR ''.'') h))) h"
    by (simp add: dropWhile_eq_drop drop_Suc tl_drop)
  finally show ?thesis .
next
  case False
  then have tw: "takeWhile (\<lambda>c. c \<noteq> CHR ''.'') h = h"
    by (auto simp: takeWhile_eq_all_conv)
  have "zone_name h = []"
    unfolding zone_name_def by (subst str_split_takeWhile) (simp add: False)
  then show ?thesis unfolding tw by simp
qed

section \<open>Zone lookup\<close>

lemma zone_name_to_id_Inr:
  "zone_name_to_id zs n = Inr zid \<Longrightarrow> \<exists>z \<in> set zs. z_name z = n \<and> z_id z = zid"
  by (induction zs) (auto split: if_splits)

lemma zone_name_to_id_find:
  "zone_name_to_id zs n =
     (case find (\<lambda>z. z_name z = n) zs of
        None \<Rightarrow> Inl (ValueError (''zone '' @ n @ '' not found''))
      | Some z \<Rightarrow> Inr (z_id z))"
  by (induction zs) auto

lemma zone_name_to_id_Inl_iff:
  "(\<exists>e. zone_name_to_id zs n = Inl e) \<longleftrightarrow> (\<forall>z \<in> set zs. z_name z \<noteq> n)"
  by (induction zs) auto

lemma zone_name_to_id_missing:
  "\<forall>z \<in> set zs. z_name z \<noteq> n \<Longrightarrow>
   zone_name_to_id zs n = Inl (ValueError (''zone '' @ n @ '' not found''))"
  by (induction zs) auto

section \<open>The loops of the desired-state builder\<close>

lemma desired_ingress_Inl:
  "desired_ingress zs tid es des = Inl e \<Longrightarrow>
   \<exists>h. Some h \<in> hostname ` set es \<and> (\<forall>z \<in> set zs. z_name z \<noteq> zone_name h) \<and>
       e = ValueError (''zone '' @ zone_name h @ '' not found'')"
proof (induction es arbitrary: des)
  case Nil
  then show ?case by simp
next
  case (Cons x xs)
  show ?case
  proof (cases "hostname x")
    case None
    with Cons show ?thesis by auto
  next
    case (Some h)
    show ?thesis
    proof (cases "zone_name_to_id zs (zone_name h)")
      case (Inl e')
      then have "\<forall>z \<in> set zs. z_name z \<noteq> zone_name h"
        using zone_name_to_id_Inl_iff by blast
      moreover from this have "e' = ValueError (''zone '' @ zone_name h @ '' not found'')"
        using Inl zone_name_to_id_missing by fastforce
      moreover have "e = e'" using Cons.prems Some Inl by simp
      ultimately show ?thesis using Some by force
    next
      case (Inr zid)
      with Cons Some show ?thesis by auto
    qed
  qed
qed

lemma desired_ingress_Inr_resolved:
  "desired_ingress zs tid es des = Inr des' \<Longrightarrow> Some h \<in> hostname ` set es \<Longrightarrow>
   \<exists>zid. zone_name_to_id zs (zone_name h) = Inr zid"
  by (induction es arbitrary: des) (auto split: option.splits sum.splits)

lemma desired_ingress_total:
  "(\<And>h. Some h \<in> hostname ` set es \<Longrightarrow> \<exists>zid. zone_name_to_id zs (zone_name h) = Inr zid) \<Longrightarrow>
   \<exists>des'. desired_ingress zs tid es des = Inr des'"
proof (induction es arbitrary: des)
  case Nil
  then show ?case by simp
next
  case (Cons x xs)
  have rest: "\<exists>des'. desired_ingress zs tid xs d = Inr des'" for d
    by (rule Cons.IH) (use Cons.prems in auto)
  show ?case
  proof (cases "hostname x")
    case None
    then show ?thesis using rest by simp
  next
    case (Some h)
    then have "Some h \<in> hostname ` set (x # xs)" by force
    then obtain zid where "zone_name_to_id zs (zone_name h) = Inr zid"
      using Cons.prems by blast
    then show ?thesis using Some rest by simp
  qed
qed

lemma desired_ingress_other:
  "desired_ingress zs tid es des = Inr des' \<Longrightarrow> Some h \<notin> hostname ` set es \<Longrightarrow> des' h = des h"
proof (induction es arbitrary: des)
  case Nil
  then show ?case by simp
next
  case (Cons x xs)
  then show ?case by (fastforce split: option.splits sum.splits)
qed

lemma desired_ingress_built:
  "desired_ingress zs tid es des = Inr des' \<Longrightarrow> Some h \<in> hostname ` set es \<Longrightarrow>
   \<exists>zid. zone_name_to_id zs (zone_name h) = Inr zid \<and>
     des' h = Some \<lparr>rec_id = None, zone_id = zid, rec_type = ''CNAME'',
                    content = tid @ ''.cfargotunnel.com'', proxiable = True,
                    proxied = True, ttl = 1\<rparr>"
proof (induction es arbitrary: des)
  case Nil
  then show ?case by simp
next
  case (Cons x xs)
  show ?case
  proof (cases "Some h \<in> hostname ` set xs")
    case True
    with Cons show ?thesis by (auto split: option.splits sum.splits)
  next
    case False
    with Cons.prems have hx: "hostname x = Some h" by auto
    then obtain zid where z: "zone_name_to_id zs (zone_name h) = Inr zid"
      using Cons.prems(1) by (auto split: sum.splits)
    with hx Cons.prems(1) have
      "desired_ingress zs tid xs
         (des(h \<mapsto> \<lparr>rec_id = None, zone_id = zid, rec_type = ''CNAME'',
                    content = tid @ ''.cfargotunnel.com'', proxiable = True,
                    proxied = True, ttl = 1\<rparr>)) = Inr des'"
      by simp
    from desired_ingress_other[OF this False] z show ?thesis by simp
  qed
qed

lemma desired_tunnels_append:
  "desired_tunnels p (xs @ ys) des =
     (case desired_tunnels p xs des of Inl e \<Rightarrow> Inl e | Inr d \<Rightarrow> desired_tunnels p ys d)"
  by (induction xs arbitrary: des) (auto split: sum.splits)

lemma desired_tunnels_Inl:
  "desired_tunnels p ts des = Inl e \<Longrightarrow>
   \<exists>t \<in> set ts. \<exists>h. Some h \<in> hostname ` set (cfd_configurations p (t_id t)) \<and>
       (\<forall>z \<in> set (cf_zones p). z_name z \<noteq> zone_name h) \<and>
       e = ValueError (''zone '' @ zone_name h @ '' not found'')"
proof (induction ts arbitrary: des)
  case Nil
  then show ?case by simp
next
  case (Cons t ts)
  show ?case
  proof (cases "desired_ingress (cf_zones p) (t_id t) (cfd_configurations p (t_id t)) des")
    case (Inl e')
    with Cons.prems have "e' = e" by simp
    with desired_ingress_Inl[OF Inl] show ?thesis by auto
  next
    case (Inr d)
    with Cons.prems have "desired_tunnels p ts d = Inl e" by simp
    from Cons.IH[OF this] show ?thesis by auto
  qed
qed

lemma desired_tunnels_Inr_resolved:
  "desired_tunnels p ts des = Inr des' \<Longrightarrow> t \<in> set ts \<Longrightarrow>
   Some h \<in> hostname ` set (cfd_configurations p (t_id t)) \<Longrightarrow>
   \<exists>zid. zone_name_to_id (cf_zones p) (zone_name h) = Inr zid"
proof (induction ts arbitrary: des)
  case Nil
  then show ?case by simp
next
  case (Cons x xs)
  then show ?case
    by (auto split: sum.splits dest: desired_ingress_Inr_resolved)
qed

lemma desired_tunnels_total:
  "(\<And>t h. t \<in> set ts \<Longrightarrow> Some h \<in> hostname ` set (cfd_configurations p (t_id t)) \<Longrightarrow>
      \<exists>zid. zone_name_to_id (cf_zones p) (zone_name h) = Inr zid) \<Longrightarrow>
   \<exists>des'. desired_tunnels p ts des = Inr des'"
proof (induction ts arbitrary: des)
  case Nil
  then show ?case by simp
next
  case (Cons t ts)
  have "\<exists>d. desired_ingress (cf_zones p) (t_id t) (cfd_configurations p (t_id t)) des = Inr d"
    by (rule desired_ingress_total) (use Cons.prems in auto)
  then obtain d where d: "desired_ingress (cf_zones p) (t_id t) (cfd_configurations p (t_id t)) des = Inr d" ..
  have "\<exists>des'. desired_tunnels p ts d = Inr des'"
    by (rule Cons.IH) (use Cons.prems in auto)
  with d show ?case by simp
qed

lemma desired_tunnels_other:
  "desired_tunnels p ts des = Inr des' \<Longrightarrow>
   \<forall>t \<in> set ts. Some h \<notin> hostname ` set (cfd_configurations p (t_id t)) \<Longrightarrow> des' h = des h"
proof (induction ts arbitrary: des)
  case Nil
  then show ?case by simp
next
  case (Cons t ts)
  then show ?case
    by (auto split: sum.splits dest: desired_ingress_other)
qed

lemma desired_tunnels_last_wins:
  assumes "desired_tunnels p (ts1 @ t # ts2) des = Inr des'"
    and "Some h \<in> hostname ` set (cfd_configurations p (t_id t))"
    and "\<forall>t' \<in> set ts2. Some h \<notin> hostname ` set (cfd_configurations p (t_id t'))"
  shows "\<exists>zid. zone_name_to_id (cf_zones p) (zone_name h) = Inr zid \<and>
     des' h = Some \<lparr>rec_id = None, zone_id = zid, rec_type = ''CNAME'',
                    content = t_id t @ ''.cfargotunnel.com'', proxiable = True,
                    proxied = True, ttl = 1\<rparr>"
proof -
  from assms(1) obtain d1 where d1: "desired_tunnels p ts1 des = Inr d1"
    and r1: "desired_tunnels p (t # ts2) d1 = Inr des'"
    by (auto simp: desired_tunnels_append split: sum.splits)
  from r1 obtain d2 where
    d2: "desired_ingress (cf_zones p) (t_id t) (cfd_configurations p (t_id t)) d1 = Inr d2"
    and r2: "desired_tunnels p ts2 d2 = Inr des'"
    by (auto split: sum.splits)
  from desired_tunnels_other[OF r2 assms(3)] have "des' h = d2 h" .
  with desired_ingress_built[OF d2 assms(2)] show ?thesis by simp
qed

section \<open>Keys of the three batches\<close>

lemma dom_create_records: "dom (create_records des cur) = dom des - dom cur"
  by (auto simp: create_records_def split: if_splits)

lemma dom_delete_records: "dom (delete_records des cur) \<subseteq> dom cur - dom des"
  by (auto simp: delete_records_def split: if_splits)

lemma update_records_Some_iff:
  "update_records des cur k = Some r \<longleftrightarrow>
     (\<exists>d c. des k = Some d \<and> cur k = Some c \<and> truedesire d c \<noteq> c \<and> r = truedesire d c)"
  by (auto simp: update_records_def split: option.splits)

lemma dom_update_records: "dom (update_records des cur) \<subseteq> dom des \<inter> dom cur"
  using update_records_Some_iff by fastforce

lemma truedesire_eq_iff:
  "truedesire d c = c \<longleftrightarrow>
     zone_id d = zone_id c \<and> rec_type d = rec_type c \<and> content d = content c \<and>
     proxiable d = proxiable c \<and> proxied d = proxied c \<and> ttl d = ttl c"
  by (cases d; cases c) (auto simp: truedesire_def)

section \<open>The update set\<close>

text \<open>
  C3. For a hostname \<open>k\<close> that is a key of both \<open>desired\<close> and \<open>current\<close>: \<open>k\<close> is in
  the update set exactly when \<open>truedesire(desired[k], current[k])\<close> differs from
  \<open>current[k]\<close>; \<open>truedesire\<close> takes the id of the current record and every other field of
  the desired record; if the two records agree on all fields but the id, \<open>k\<close> is not in the
  update set; and the record the update set holds for \<open>k\<close> has the current record's id
  and the desired record's other fields.
\<close>

theorem update_set_membership:
  assumes "des k = Some d" and "cur k = Some c"
  shows "(k \<in> dom (update_records des cur) \<longleftrightarrow> truedesire d c \<noteq> c)
    \<and> rec_id (truedesire d c) = rec_id c \<and> zone_id (truedesire d c) = zone_id d
    \<and> rec_type (truedesire d c) = rec_type d \<and> content (truedesire d c) = content d
    \<and> proxiable (truedesire d c) = proxiable d \<and> proxied (truedesire d c) = proxied d
    \<and> ttl (truedesire d c) = ttl d
    \<and> (zone_id d = zone_id c \<and> rec_type d = rec_type c \<and> content d = content c \<and>
        proxiable d = proxiable c \<and> proxied d = proxied c \<and> ttl d = ttl c
        \<longrightarrow> k \<notin> dom (update_records des cur))
    \<and> (\<forall>r. update_records des cur k = Some r \<longrightarrow>
          r = \<lparr>rec_id = rec_id c, zone_id = zone_id d, rec_type = rec_type d,
               content = content d, proxiable = proxiable d, proxied = proxied d,
               ttl = ttl d\<rparr>)"
proof -
  have mem: "k \<in> dom (update_records des cur) \<longleftrightarrow> truedesire d c \<noteq> c"
    using assms by (auto simp: update_records_Some_iff dom_def)
  have fields: "truedesire d c = \<lparr>rec_id = rec_id c, zone_id = zone_id d, rec_type = rec_type d,
               content = content d, proxiable = proxiable d, proxied = proxied d,
               ttl = ttl d\<rparr>"
    by (cases d) (simp add: truedesire_def)
  have same: "zone_id d = zone_id c \<and> rec_type d = rec_type c \<and> content d = content c \<and>
        proxiable d = proxiable c \<and> proxied d = proxied c \<and> ttl d = ttl c
        \<longrightarrow> k \<notin> dom (update_records des cur)"
    using mem truedesire_eq_iff by blast
  have recs: "\<forall>r. update_records des cur k = Some r \<longrightarrow>
          r = \<lparr>rec_id = rec_id c, zone_id = zone_id d, rec_type = rec_type d,
               content = content d, proxiable = proxiable d, proxied = proxied d,
               ttl = ttl d\<rparr>"
    using assms fields by (auto simp: update_records_Some_iff)
  show ?thesis
    using mem same recs by (simp add: truedesire_def)
qed

text \<open>
  The specification's example 2 (the content differs, the hostname is in the update set),
  and a hostname whose two records differ in the id only.
\<close>

theorem update_set_membership_witness:
  "''a.example.com'' \<in> dom (update_records
      [''a.example.com'' \<mapsto> \<lparr>rec_id = None, zone_id = ''Z'', rec_type = ''CNAME'',
         content = ''T2.cfargotunnel.com'', proxiable = True, proxied = True, ttl = 1\<rparr>]
      [''a.example.com'' \<mapsto> \<lparr>rec_id = Some ''rec1'', zone_id = ''Z'', rec_type = ''CNAME'',
         content = ''T1.cfargotunnel.com'', proxiable = True, proxied = True, ttl = 1\<rparr>])
   \<and> ''b.example.com'' \<notin> dom (update_records
      [''b.example.com'' \<mapsto> \<lparr>rec_id = None, zone_id = ''Z'', rec_type = ''CNAME'',
         content = ''T1.cfargotunnel.com'', proxiable = True, proxied = True, ttl = 1\<rparr>]
      [''b.example.com'' \<mapsto> \<lparr>rec_id = Some ''rec1'', zone_id = ''Z'', rec_type = ''CNAME'',
         content = ''T1.cfargotunnel.com'', proxiable = True, proxied = True, ttl = 1\<rparr>])"
  using update_set_membership[of
      "[''a.example.com'' \<mapsto> \<lparr>rec_id = None, zone_id = ''Z'', rec_type = ''CNAME'',
         content = ''T2.cfargotunnel.com'', proxiable = True, proxied = True, ttl = 1\<rparr>]"
      "''a.example.com''"
      "\<lparr>rec_id = None, zone_id = ''Z'', rec_type = ''CNAME'',
         content = ''T2.cfargotunnel.com'', proxiable = True, proxied = True, ttl = 1\<rparr>"
      "[''a.example.com'' \<mapsto> \<lparr>rec_id = Some ''rec1'', zone_id = ''Z'', rec_type = ''CNAME'',
         content = ''T1.cfargotunnel.com'', proxiable = True, proxied = True, ttl = 1\<rparr>]"
      "\<lparr>rec_id = Some ''rec1'', zone_id = ''Z'', rec_type = ''CNAME'',
         content = ''T1.cfargotunnel.com'', proxiable = True, proxied = True, ttl = 1\<rparr>"]
    update_set_membership[of
      "[''b.example.com'' \<mapsto> \<lparr>rec_id = None, zone_id = ''Z'', rec_type = ''CNAME'',
         content = ''T1.cfargotunnel.com'', proxiable = True, proxied = True, ttl = 1\<rparr>]"
      "''b.example.com''"
      "\<lparr>rec_id = None, zone_id = ''Z'', rec_type = ''CNAME'',
         content = ''T1.cfargotunnel.com'', proxiable = True, proxied = True, ttl = 1\<rparr>"
      "[''b.example.com'' \<mapsto> \<lparr>rec_id = Some ''rec1'', zone_id = ''Z'', rec_type = ''CNAME'',
         content = ''T1.cfargotunnel.com'', proxiable = True, proxied = True, ttl = 1\<rparr>]"
      "\<lparr>rec_id = Some ''rec1'', zone_id = ''Z'', rec_type = ''CNAME'',
         content = ''T1.cfargotunnel.com'', proxiable = True, proxied = True, ttl = 1\<rparr>"]
  by (simp add: truedesire_def)

text \<open>
  C4, as stated, fails: the desired and the current record of \<open>a.foo.example.com\<close> agree
  on type, content, proxiable, proxied and ttl (their \<open>data\<close> is the same) and differ in
  the zone id, and the hostname is in the update set.
\<close>

theorem update_compares_five_fields_counterexample:
  "data \<lparr>rec_id = None, zone_id = ''Z2'', rec_type = ''CNAME'',
         content = ''T1.cfargotunnel.com'', proxiable = True, proxied = True, ttl = 1\<rparr>
   = data \<lparr>rec_id = Some ''rec1'', zone_id = ''Z1'', rec_type = ''CNAME'',
         content = ''T1.cfargotunnel.com'', proxiable = True, proxied = True, ttl = 1\<rparr>
   \<and> ''a.foo.example.com'' \<in> dom (update_records
      [''a.foo.example.com'' \<mapsto> \<lparr>rec_id = None, zone_id = ''Z2'', rec_type = ''CNAME'',
         content = ''T1.cfargotunnel.com'', proxiable = True, proxied = True, ttl = 1\<rparr>]
      [''a.foo.example.com'' \<mapsto> \<lparr>rec_id = Some ''rec1'', zone_id = ''Z1'', rec_type = ''CNAME'',
         content = ''T1.cfargotunnel.com'', proxiable = True, proxied = True, ttl = 1\<rparr>])"
  by (simp add: data_def update_records_def truedesire_def dom_def)

text \<open>
  C4, amended: for a hostname \<open>k\<close> that is a key of both maps, \<open>k\<close> is outside the update
  set exactly when \<open>desired[k]\<close> and \<open>current[k]\<close> agree on the six fields zone id, type,
  content, proxiable, proxied and ttl. The comparison is the equality of the dataclass
  after the id has been substituted, so the zone id is compared as well.
\<close>

theorem update_compares_six_fields:
  assumes "des k = Some d" and "cur k = Some c"
  shows "k \<notin> dom (update_records des cur) \<longleftrightarrow>
     zone_id d = zone_id c \<and> rec_type d = rec_type c \<and> content d = content c \<and>
     proxiable d = proxiable c \<and> proxied d = proxied c \<and> ttl d = ttl c"
proof -
  have "k \<in> dom (update_records des cur) \<longleftrightarrow> truedesire d c \<noteq> c"
    using assms by (auto simp: update_records_Some_iff dom_def)
  then show ?thesis
    using truedesire_eq_iff by blast
qed

text \<open>
  Two records of one hostname that agree on the six fields: the hostname is not in the
  update set.
\<close>

theorem update_compares_six_fields_witness:
  "''a.foo.example.com'' \<notin> dom (update_records
      [''a.foo.example.com'' \<mapsto> \<lparr>rec_id = None, zone_id = ''Z2'', rec_type = ''CNAME'',
         content = ''T1.cfargotunnel.com'', proxiable = True, proxied = True, ttl = 1\<rparr>]
      [''a.foo.example.com'' \<mapsto> \<lparr>rec_id = Some ''rec1'', zone_id = ''Z2'', rec_type = ''CNAME'',
         content = ''T1.cfargotunnel.com'', proxiable = True, proxied = True, ttl = 1\<rparr>])"
  using update_compares_six_fields[of
      "[''a.foo.example.com'' \<mapsto> \<lparr>rec_id = None, zone_id = ''Z2'', rec_type = ''CNAME'',
         content = ''T1.cfargotunnel.com'', proxiable = True, proxied = True, ttl = 1\<rparr>]"
      "''a.foo.example.com''"
      "\<lparr>rec_id = None, zone_id = ''Z2'', rec_type = ''CNAME'',
         content = ''T1.cfargotunnel.com'', proxiable = True, proxied = True, ttl = 1\<rparr>"
      "[''a.foo.example.com'' \<mapsto> \<lparr>rec_id = Some ''rec1'', zone_id = ''Z2'', rec_type = ''CNAME'',
         content = ''T1.cfargotunnel.com'', proxiable = True, proxied = True, ttl = 1\<rparr>]"
      "\<lparr>rec_id = Some ''rec1'', zone_id = ''Z2'', rec_type = ''CNAME'',
         content = ''T1.cfargotunnel.com'', proxiable = True, proxied = True, ttl = 1\<rparr>"]
  by simp

section \<open>Records of the desired map\<close>

lemma desired_tunnels_origin:
  assumes "desired_tunnels p ts Map.empty = Inr des" and "des h = Some r"
  shows "\<exists>ts1 t ts2. ts = ts1 @ t # ts2 \<and>
           Some h \<in> hostname ` set (cfd_configurations p (t_id t)) \<and>
           (\<forall>t' \<in> set ts2. Some h \<notin> hostname ` set (cfd_configurations p (t_id t')))"
proof -
  have "\<exists>t \<in> set ts. Some h \<in> hostname ` set (cfd_configurations p (t_id t))"
  proof (rule ccontr)
    assume "\<not> ?thesis"
    then have "des h = Map.empty h"
      using desired_tunnels_other[OF assms(1)] by blast
    with assms(2) show False by simp
  qed
  then show ?thesis
    by (rule split_list_last_prop)
qed

lemma desired_record_fields:
  assumes "desired p = Inr des" and "des h = Some r"
  shows "\<exists>t \<in> set (cfd_tunnels p).
           Some h \<in> hostname ` set (cfd_configurations p (t_id t)) \<and>
           zone_name_to_id (cf_zones p) (zone_name h) = Inr (zone_id r) \<and>
           rec_id r = None \<and> rec_type r = ''CNAME'' \<and>
           content r = t_id t @ ''.cfargotunnel.com'' \<and> proxiable r \<and> proxied r \<and>
           ttl r = 1"
proof -
  from assms have run: "desired_tunnels p (cfd_tunnels p) Map.empty = Inr des"
    by (simp add: desired_def)
  from desired_tunnels_origin[OF run assms(2)] obtain ts1 t ts2 where
    ts: "cfd_tunnels p = ts1 @ t # ts2"
    and t: "Some h \<in> hostname ` set (cfd_configurations p (t_id t))"
    and last: "\<forall>t' \<in> set ts2. Some h \<notin> hostname ` set (cfd_configurations p (t_id t'))"
    by blast
  from run ts have "desired_tunnels p (ts1 @ t # ts2) Map.empty = Inr des" by simp
  from desired_tunnels_last_wins[OF this t last] obtain zid where
    z: "zone_name_to_id (cf_zones p) (zone_name h) = Inr zid"
    and d: "des h = Some \<lparr>rec_id = None, zone_id = zid, rec_type = ''CNAME'',
                    content = t_id t @ ''.cfargotunnel.com'', proxiable = True,
                    proxied = True, ttl = 1\<rparr>"
    by blast
  from d assms(2) have "r = \<lparr>rec_id = None, zone_id = zid, rec_type = ''CNAME'',
                    content = t_id t @ ''.cfargotunnel.com'', proxiable = True,
                    proxied = True, ttl = 1\<rparr>"
    by simp
  then have "zone_id r = zid \<and> rec_id r = None \<and> rec_type r = ''CNAME'' \<and>
           content r = t_id t @ ''.cfargotunnel.com'' \<and> proxiable r \<and> proxied r \<and>
           ttl r = 1"
    by simp
  moreover have "t \<in> set (cfd_tunnels p)" using ts by simp
  ultimately show ?thesis using z t by blast
qed

section \<open>The create set\<close>

text \<open>
  C5. The keys of the create set are the keys of \<open>desired\<close> that are not keys of
  \<open>current\<close>; each of them is mapped to the record \<open>desired\<close> holds for it, unchanged; when
  \<open>desired\<close> is the map built by \<open>desired()\<close>, every record of the create set has no id.
  For \<open>desired = {a.example.com: tunnel CNAME}\<close> and an empty \<open>current\<close> the create set is
  that one entry and the update and delete sets are empty.
\<close>

theorem create_set_membership:
  "dom (create_records des cur) = dom des - dom cur
   \<and> (\<forall>k. k \<in> dom des - dom cur \<longrightarrow> create_records des cur k = des k)
   \<and> (\<forall>p k r. desired p = Inr des \<and> create_records des cur k = Some r \<longrightarrow> rec_id r = None)
   \<and> create_records
        [''a.example.com'' \<mapsto> \<lparr>rec_id = None, zone_id = Z, rec_type = ''CNAME'',
           content = ''T1.cfargotunnel.com'', proxiable = True, proxied = True, ttl = 1\<rparr>]
        Map.empty
      = [''a.example.com'' \<mapsto> \<lparr>rec_id = None, zone_id = Z, rec_type = ''CNAME'',
           content = ''T1.cfargotunnel.com'', proxiable = True, proxied = True, ttl = 1\<rparr>]
   \<and> update_records
        [''a.example.com'' \<mapsto> \<lparr>rec_id = None, zone_id = Z, rec_type = ''CNAME'',
           content = ''T1.cfargotunnel.com'', proxiable = True, proxied = True, ttl = 1\<rparr>]
        Map.empty = Map.empty
   \<and> delete_records
        [''a.example.com'' \<mapsto> \<lparr>rec_id = None, zone_id = Z, rec_type = ''CNAME'',
           content = ''T1.cfargotunnel.com'', proxiable = True, proxied = True, ttl = 1\<rparr>]
        Map.empty = Map.empty"
proof -
  have keys: "dom (create_records des cur) = dom des - dom cur"
    by (rule dom_create_records)
  have vals: "\<forall>k. k \<in> dom des - dom cur \<longrightarrow> create_records des cur k = des k"
    by (simp add: create_records_def)
  have ids: "\<forall>p k r. desired p = Inr des \<and> create_records des cur k = Some r \<longrightarrow> rec_id r = None"
  proof (intro allI impI)
    fix p k r
    assume h: "desired p = Inr des \<and> create_records des cur k = Some r"
    then have "des k = Some r"
      by (auto simp: create_records_def split: if_splits)
    with h desired_record_fields[of p des k r] show "rec_id r = None"
      by blast
  qed
  have ex1: "create_records
        [''a.example.com'' \<mapsto> \<lparr>rec_id = None, zone_id = Z, rec_type = ''CNAME'',
           content = ''T1.cfargotunnel.com'', proxiable = True, proxied = True, ttl = 1\<rparr>]
        Map.empty
      = [''a.example.com'' \<mapsto> \<lparr>rec_id = None, zone_id = Z, rec_type = ''CNAME'',
           content = ''T1.cfargotunnel.com'', proxiable = True, proxied = True, ttl = 1\<rparr>]"
    by (auto simp: create_records_def fun_eq_iff)
  have ex2: "update_records
        [''a.example.com'' \<mapsto> \<lparr>rec_id = None, zone_id = Z, rec_type = ''CNAME'',
           content = ''T1.cfargotunnel.com'', proxiable = True, proxied = True, ttl = 1\<rparr>]
        Map.empty = Map.empty"
    by (auto simp: update_records_def fun_eq_iff)
  have ex3: "delete_records
        [''a.example.com'' \<mapsto> \<lparr>rec_id = None, zone_id = Z, rec_type = ''CNAME'',
           content = ''T1.cfargotunnel.com'', proxiable = True, proxied = True, ttl = 1\<rparr>]
        Map.empty = Map.empty"
    by (auto simp: delete_records_def fun_eq_iff)
  from keys vals ids ex1 ex2 ex3 show ?thesis by blast
qed

lemma desired_example1:
  "desired example1_provider =
     Inr [''a.example.com'' \<mapsto> \<lparr>rec_id = None, zone_id = ''Z'', rec_type = ''CNAME'',
           content = ''T1.cfargotunnel.com'', proxiable = True, proxied = True, ttl = 1\<rparr>]"
  by (simp add: desired_def example1_provider_def zone_name_def)

text \<open>
  The account of example 1: \<open>desired()\<close> returns the one-entry map, and the create set
  against an empty \<open>current\<close> holds that entry.
\<close>

theorem create_set_membership_witness:
  "desired example1_provider =
     Inr [''a.example.com'' \<mapsto> \<lparr>rec_id = None, zone_id = ''Z'', rec_type = ''CNAME'',
           content = ''T1.cfargotunnel.com'', proxiable = True, proxied = True, ttl = 1\<rparr>]
   \<and> create_records
        [''a.example.com'' \<mapsto> \<lparr>rec_id = None, zone_id = ''Z'', rec_type = ''CNAME'',
           content = ''T1.cfargotunnel.com'', proxiable = True, proxied = True, ttl = 1\<rparr>]
        Map.empty ''a.example.com''
      = Some \<lparr>rec_id = None, zone_id = ''Z'', rec_type = ''CNAME'',
           content = ''T1.cfargotunnel.com'', proxiable = True, proxied = True, ttl = 1\<rparr>
   \<and> dom (create_records
        [''a.example.com'' \<mapsto> \<lparr>rec_id = None, zone_id = ''Z'', rec_type = ''CNAME'',
           content = ''T1.cfargotunnel.com'', proxiable = True, proxied = True, ttl = 1\<rparr>]
        Map.empty) = {''a.example.com''}"
proof -
  let ?R = "\<lparr>rec_id = None, zone_id = ''Z'', rec_type = ''CNAME'',
           content = ''T1.cfargotunnel.com'', proxiable = True, proxied = True, ttl = 1\<rparr>"
  let ?des = "[''a.example.com'' \<mapsto> ?R]"
  have d: "desired example1_provider = Inr ?des"
    by (rule desired_example1)
  note inst = create_set_membership[of ?des Map.empty "''Z''"]
  from inst have keys: "dom (create_records ?des Map.empty) = dom ?des - dom (Map.empty :: dict)"
    by blast
  from inst have "\<forall>k. k \<in> dom ?des - dom (Map.empty :: dict) \<longrightarrow> create_records ?des Map.empty k = ?des k"
    by blast
  then have v: "create_records ?des Map.empty ''a.example.com'' = Some ?R"
    by simp
  from d keys v show ?thesis by simp
qed

section \<open>Disjoint batches over unchanged dictionaries\<close>

lemma declined_keeps_dicts:
  "declined prompt w = Inr (no, w') \<Longrightarrow>
     desired_obj w' = desired_obj w \<and> current_obj w' = current_obj w"
  by (cases "stdin w") (auto simp: declined_def input_def split: if_splits)

lemma create_keeps_dicts:
  "desired_obj (snd (create prompt w)) = desired_obj w \<and>
   current_obj (snd (create prompt w)) = current_obj w"
proof (cases "declined prompt w")
  case (Inl e)
  then show ?thesis by (simp add: create_def Let_def)
next
  case (Inr a)
  obtain no w' where a: "a = (no, w')" by (cases a)
  with Inr declined_keeps_dicts[of prompt w no w'] show ?thesis
    by (simp add: create_def Let_def)
qed

lemma update_keeps_dicts:
  "desired_obj (snd (update prompt w)) = desired_obj w \<and>
   current_obj (snd (update prompt w)) = current_obj w"
proof (cases "declined prompt w")
  case (Inl e)
  then show ?thesis by (simp add: update_def Let_def)
next
  case (Inr a)
  obtain no w' where a: "a = (no, w')" by (cases a)
  with Inr declined_keeps_dicts[of prompt w no w'] show ?thesis
    by (simp add: update_def Let_def)
qed

lemma delete_keeps_dicts:
  "desired_obj (snd (delete prompt w)) = desired_obj w \<and>
   current_obj (snd (delete prompt w)) = current_obj w"
proof (cases "declined prompt w")
  case (Inl e)
  then show ?thesis by (simp add: delete_def Let_def)
next
  case (Inr a)
  obtain no w' where a: "a = (no, w')" by (cases a)
  with Inr declined_keeps_dicts[of prompt w no w'] show ?thesis
    by (simp add: delete_def Let_def)
qed

text \<open>
  C8. The keys of the create batch lie in \<open>desired\<close> minus \<open>current\<close>, those of the update
  batch in the intersection, those of the delete batch in \<open>current\<close> minus \<open>desired\<close>, so the
  three key sets are pairwise disjoint; and after \<open>create\<close>, \<open>update\<close> and \<open>delete\<close> the two
  dictionary objects are what they were before, whatever the prompt and the answers.
\<close>

theorem batches_disjoint:
  "dom (create_records des cur) \<subseteq> dom des - dom cur
   \<and> dom (update_records des cur) \<subseteq> dom des \<inter> dom cur
   \<and> dom (delete_records des cur) \<subseteq> dom cur - dom des
   \<and> dom (create_records des cur) \<inter> dom (update_records des cur) = {}
   \<and> dom (create_records des cur) \<inter> dom (delete_records des cur) = {}
   \<and> dom (update_records des cur) \<inter> dom (delete_records des cur) = {}
   \<and> desired_obj (snd (create prompt w)) = desired_obj w
   \<and> current_obj (snd (create prompt w)) = current_obj w
   \<and> desired_obj (snd (update prompt w)) = desired_obj w
   \<and> current_obj (snd (update prompt w)) = current_obj w
   \<and> desired_obj (snd (delete prompt w)) = desired_obj w
   \<and> current_obj (snd (delete prompt w)) = current_obj w"
proof -
  have c: "dom (create_records des cur) \<subseteq> dom des - dom cur"
    by (simp add: dom_create_records)
  note u = dom_update_records[of des cur]
  note d = dom_delete_records[of des cur]
  have cu: "dom (create_records des cur) \<inter> dom (update_records des cur) = {}"
    using c u by blast
  have cd: "dom (create_records des cur) \<inter> dom (delete_records des cur) = {}"
    using c d by blast
  have ud: "dom (update_records des cur) \<inter> dom (delete_records des cur) = {}"
    using u d by blast
  from c u d cu cd ud create_keeps_dicts[of prompt w] update_keeps_dicts[of prompt w]
    delete_keeps_dicts[of prompt w]
  show ?thesis by blast
qed

section \<open>The confirmation prompt\<close>

text \<open>
  What the three functions do with an answer other than \<open>y\<close> when the batch is not
  empty: \<open>create\<close> and \<open>update\<close> return without a call, and \<open>process\<close> goes on to the
  next step; \<open>delete\<close> sends its calls.
\<close>

lemma declined_not_y:
  "stdin w = a # rest \<Longrightarrow> a \<noteq> ''y'' \<Longrightarrow> declined True w = Inr (True, w\<lparr>stdin := rest\<rparr>)"
  by (simp add: declined_def input_def)

lemma declined_y:
  "stdin w = ''y'' # rest \<Longrightarrow> declined True w = Inr (False, w\<lparr>stdin := rest\<rparr>)"
  by (simp add: declined_def input_def)


lemma create_declined:
  "create_records (desired_obj w) (current_obj w) \<noteq> Map.empty \<Longrightarrow>
   stdin w = a # rest \<Longrightarrow> a \<noteq> ''y'' \<Longrightarrow>
   create True w = (None, w\<lparr>stdin := rest\<rparr>)"
  by (simp add: create_def declined_not_y)

lemma update_declined:
  "update_records (desired_obj w) (current_obj w) \<noteq> Map.empty \<Longrightarrow>
   stdin w = a # rest \<Longrightarrow> a \<noteq> ''y'' \<Longrightarrow>
   update True w = (None, w\<lparr>stdin := rest\<rparr>)"
  by (simp add: update_def declined_not_y)

lemma delete_declined:
  "delete_records (desired_obj w) (current_obj w) \<noteq> Map.empty \<Longrightarrow>
   stdin w = a # rest \<Longrightarrow> a \<noteq> ''y'' \<Longrightarrow>
   delete True w =
     (None, w\<lparr>stdin := rest,
              calls := calls w @ [delete_calls (delete_records (desired_obj w) (current_obj w))]\<rparr>)"
  by (simp add: delete_def declined_not_y)

lemma process_declined_create:
  "desired p = Inr des \<Longrightarrow> create_records des (current p) \<noteq> Map.empty \<Longrightarrow>
   stdin w = a # rest \<Longrightarrow> a \<noteq> ''y'' \<Longrightarrow>
   process p True w =
     (case update True (w\<lparr>desired_obj := des, current_obj := current p, stdin := rest\<rparr>) of
        (Some e, w2) \<Rightarrow> (Some e, w2)
      | (None, w2) \<Rightarrow> delete True w2)"
  by (simp add: process_def
      create_declined[of "w\<lparr>desired_obj := des, current_obj := current p\<rparr>" a rest])

lemma process_declined_update:
  "desired p = Inr des \<Longrightarrow> create_records des (current p) = Map.empty \<Longrightarrow>
   update_records des (current p) \<noteq> Map.empty \<Longrightarrow>
   stdin w = a # rest \<Longrightarrow> a \<noteq> ''y'' \<Longrightarrow>
   process p True w =
     delete True (w\<lparr>desired_obj := des, current_obj := current p, stdin := rest\<rparr>)"
  by (simp add: process_def create_def
      update_declined[of "w\<lparr>desired_obj := des, current_obj := current p\<rparr>" a rest])


text \<open>
  C2. The claim: in each of the three batches an answer other than \<open>y\<close> to the prompt
  keeps every call of that batch from being sent. \<open>create\<close> and \<open>update\<close> do so
  (\<open>create_declined\<close>, \<open>update_declined\<close>). \<open>delete\<close> does not: after the answer \<open>n\<close>
  it logs that it will not delete (line 139) and goes on to the loop of lines 140-142.
  With \<open>desired\<close> empty and \<open>current\<close> holding the record \<open>x.cfargotunnel.com\<close>, the
  prompt on and the answer \<open>n\<close>, the delete call for that record is sent.
\<close>

theorem delete_ignores_answer:
  "delete True
     \<lparr>desired_obj = Map.empty,
      current_obj = [''x.cfargotunnel.com'' \<mapsto>
          \<lparr>rec_id = Some ''rec3'', zone_id = ''Z'', rec_type = ''CNAME'',
           content = ''T3.cfargotunnel.com'', proxiable = True, proxied = True, ttl = 1\<rparr>],
      stdin = [''n''], calls = []\<rparr>
   = (None,
     \<lparr>desired_obj = Map.empty,
      current_obj = [''x.cfargotunnel.com'' \<mapsto>
          \<lparr>rec_id = Some ''rec3'', zone_id = ''Z'', rec_type = ''CNAME'',
           content = ''T3.cfargotunnel.com'', proxiable = True, proxied = True, ttl = 1\<rparr>],
      stdin = [], calls = [{Delete ''Z'' (Some ''rec3'')}]\<rparr>)"
proof -
  let ?R = "\<lparr>rec_id = Some ''rec3'', zone_id = ''Z'', rec_type = ''CNAME'',
           content = ''T3.cfargotunnel.com'', proxiable = True, proxied = True, ttl = 1\<rparr>"
  let ?cur = "[''x.cfargotunnel.com'' \<mapsto> ?R]"
  have recs: "delete_records Map.empty ?cur = ?cur"
    by (auto simp: delete_records_def endswith_def fun_eq_iff)
  have ne: "?cur \<noteq> Map.empty"
    by (metis map_upd_nonempty)
  have cs: "delete_calls ?cur = {Delete ''Z'' (Some ''rec3'')}"
    by (simp add: delete_calls_def)
  show ?thesis
    using delete_declined[of "\<lparr>desired_obj = Map.empty, current_obj = ?cur,
        stdin = [''n''], calls = []\<rparr>" "''n''" "[]"] recs ne cs
    by simp
qed

section \<open>Addressing of the patch calls\<close>


lemma zone_name_examples:
  "zone_name ''app.example.com'' = ''example.com''"
  "zone_name ''api.foo.example.com'' = ''foo.example.com''"
  "zone_name ''x.unknown-domain.test'' = ''unknown-domain.test''"
  "zone_name ''localhost'' = []"
  by (simp_all add: zone_name_def)



section \<open>Failure of the desired-state builder\<close>

text \<open>
  When the hostnames before an unresolved one all resolve, \<open>desired()\<close> raises the
  error of that hostname; when any hostname is unresolved, it raises the error of some
  unresolved hostname.
\<close>

lemma in_hostnames:
  "Some h \<in> hostname ` set es \<longleftrightarrow> (\<exists>e \<in> set es. hostname e = Some h)"
  by force

lemma desired_ingress_append:
  "desired_ingress zs tid (xs @ ys) des =
     (case desired_ingress zs tid xs des of Inl e \<Rightarrow> Inl e | Inr d \<Rightarrow> desired_ingress zs tid ys d)"
  by (induction xs arbitrary: des) (auto split: option.splits sum.splits)

lemma desired_first_unresolved:
  assumes ts: "cfd_tunnels p = ts1 @ t # ts2"
    and es: "cfd_configurations p (t_id t) = es1 @ e # es2"
    and h: "hostname e = Some h"
    and un: "\<forall>z \<in> set (cf_zones p). z_name z \<noteq> zone_name h"
    and r1: "\<forall>t' \<in> set ts1. \<forall>e' \<in> set (cfd_configurations p (t_id t')). \<forall>h'.
               hostname e' = Some h' \<longrightarrow> (\<exists>z \<in> set (cf_zones p). z_name z = zone_name h')"
    and r2: "\<forall>e' \<in> set es1. \<forall>h'.
               hostname e' = Some h' \<longrightarrow> (\<exists>z \<in> set (cf_zones p). z_name z = zone_name h')"
  shows "desired p = Inl (ValueError (''zone '' @ zone_name h @ '' not found''))"
proof -
  have res: "(\<exists>z \<in> set (cf_zones p). z_name z = n) \<Longrightarrow>
      \<exists>zid. zone_name_to_id (cf_zones p) n = Inr zid" for n
    using zone_name_to_id_Inl_iff[of "cf_zones p" n]
    by (cases "zone_name_to_id (cf_zones p) n") auto
  have "\<exists>d1. desired_tunnels p ts1 Map.empty = Inr d1"
    by (rule desired_tunnels_total) (use r1 res in \<open>auto simp: in_hostnames\<close>)
  then obtain d1 where d1: "desired_tunnels p ts1 Map.empty = Inr d1" ..
  have "\<exists>d2. desired_ingress (cf_zones p) (t_id t) es1 d1 = Inr d2"
    by (rule desired_ingress_total) (use r2 res in \<open>auto simp: in_hostnames\<close>)
  then obtain d2 where d2: "desired_ingress (cf_zones p) (t_id t) es1 d1 = Inr d2" ..
  have fail: "zone_name_to_id (cf_zones p) (zone_name h)
      = Inl (ValueError (''zone '' @ zone_name h @ '' not found''))"
    using un by (rule zone_name_to_id_missing)
  have "desired_ingress (cf_zones p) (t_id t) (es1 @ e # es2) d1
      = Inl (ValueError (''zone '' @ zone_name h @ '' not found''))"
    by (simp add: desired_ingress_append d2 h fail)
  then have "desired_tunnels p (ts1 @ t # ts2) Map.empty
      = Inl (ValueError (''zone '' @ zone_name h @ '' not found''))"
    by (simp add: desired_tunnels_append d1 es)
  then show ?thesis by (simp add: desired_def ts)
qed

lemma desired_some_unresolved:
  assumes "t \<in> set (cfd_tunnels p)" and "e \<in> set (cfd_configurations p (t_id t))"
    and "hostname e = Some h" and "\<forall>z \<in> set (cf_zones p). z_name z \<noteq> zone_name h"
  shows "\<exists>h'. (\<exists>t' \<in> set (cfd_tunnels p). \<exists>e' \<in> set (cfd_configurations p (t_id t')).
                  hostname e' = Some h')
           \<and> (\<forall>z \<in> set (cf_zones p). z_name z \<noteq> zone_name h')
           \<and> desired p = Inl (ValueError (''zone '' @ zone_name h' @ '' not found''))"
proof (cases "desired p")
  case (Inl err)
  then have "desired_tunnels p (cfd_tunnels p) Map.empty = Inl err"
    by (simp add: desired_def)
  from desired_tunnels_Inl[OF this] Inl show ?thesis
    by (auto simp: in_hostnames)
next
  case (Inr des)
  then have "desired_tunnels p (cfd_tunnels p) Map.empty = Inr des"
    by (simp add: desired_def)
  from desired_tunnels_Inr_resolved[OF this assms(1), of h] assms(2,3)
  obtain zid where "zone_name_to_id (cf_zones p) (zone_name h) = Inr zid"
    by (auto simp: in_hostnames)
  from zone_name_to_id_Inr[OF this] assms(4) show ?thesis by auto
qed

text \<open>
  C6. If the apex domain of an ingress hostname \<open>h\<close> (the hostname without its first
  label) is the name of no zone, then \<open>desired()\<close> raises the error
  \<open>zone ... not found\<close> naming the apex domain of an ingress hostname that no zone
  matches, \<open>process\<close> ends with that error, and the state of the run is unchanged: no
  call has been sent and no answer read. The error names the apex domain of \<open>h\<close> itself
  when every hostname that the loops reach before \<open>h\<close> resolves.
\<close>

theorem zone_not_found_fatal:
  assumes "t \<in> set (cfd_tunnels p)" and "e \<in> set (cfd_configurations p (t_id t))"
    and "hostname e = Some h" and "\<forall>z \<in> set (cf_zones p). z_name z \<noteq> zone_name h"
  shows "(\<exists>h'. (\<exists>t' \<in> set (cfd_tunnels p). \<exists>e' \<in> set (cfd_configurations p (t_id t')).
                  hostname e' = Some h')
           \<and> (\<forall>z \<in> set (cf_zones p). z_name z \<noteq> zone_name h')
           \<and> desired p = Inl (ValueError (''zone '' @ zone_name h' @ '' not found''))
           \<and> process p prompt w
               = (Some (ValueError (''zone '' @ zone_name h' @ '' not found'')), w))
    \<and> (\<forall>ts1 ts2 es1 es2.
          cfd_tunnels p = ts1 @ t # ts2 \<and> cfd_configurations p (t_id t) = es1 @ e # es2
          \<and> (\<forall>t' \<in> set ts1. \<forall>e' \<in> set (cfd_configurations p (t_id t')). \<forall>h'.
               hostname e' = Some h' \<longrightarrow> (\<exists>z \<in> set (cf_zones p). z_name z = zone_name h'))
          \<and> (\<forall>e' \<in> set es1. \<forall>h'.
               hostname e' = Some h' \<longrightarrow> (\<exists>z \<in> set (cf_zones p). z_name z = zone_name h'))
          \<longrightarrow> process p prompt w
               = (Some (ValueError (''zone '' @ zone_name h @ '' not found'')), w))
    \<and> zone_name h = drop (Suc (length (takeWhile (\<lambda>c. c \<noteq> CHR ''.'') h))) h"
proof -
  have run: "desired p = Inl err \<Longrightarrow> process p prompt w = (Some err, w)" for err
    by (simp add: process_def)
  from desired_some_unresolved[OF assms] obtain h' where
    a: "\<exists>t' \<in> set (cfd_tunnels p). \<exists>e' \<in> set (cfd_configurations p (t_id t')).
                  hostname e' = Some h'"
    and b: "\<forall>z \<in> set (cf_zones p). z_name z \<noteq> zone_name h'"
    and c: "desired p = Inl (ValueError (''zone '' @ zone_name h' @ '' not found''))"
    by blast
  from a b c run[OF c] have first: "\<exists>h'. (\<exists>t' \<in> set (cfd_tunnels p). \<exists>e' \<in> set (cfd_configurations p (t_id t')).
                  hostname e' = Some h')
           \<and> (\<forall>z \<in> set (cf_zones p). z_name z \<noteq> zone_name h')
           \<and> desired p = Inl (ValueError (''zone '' @ zone_name h' @ '' not found''))
           \<and> process p prompt w
               = (Some (ValueError (''zone '' @ zone_name h' @ '' not found'')), w)"
    by blast
  have exact: "\<forall>ts1 ts2 es1 es2.
          cfd_tunnels p = ts1 @ t # ts2 \<and> cfd_configurations p (t_id t) = es1 @ e # es2
          \<and> (\<forall>t' \<in> set ts1. \<forall>e' \<in> set (cfd_configurations p (t_id t')). \<forall>h'.
               hostname e' = Some h' \<longrightarrow> (\<exists>z \<in> set (cf_zones p). z_name z = zone_name h'))
          \<and> (\<forall>e' \<in> set es1. \<forall>h'.
               hostname e' = Some h' \<longrightarrow> (\<exists>z \<in> set (cf_zones p). z_name z = zone_name h'))
          \<longrightarrow> process p prompt w
               = (Some (ValueError (''zone '' @ zone_name h @ '' not found'')), w)"
  proof (intro allI impI)
    fix ts1 ts2 es1 es2
    assume c: "cfd_tunnels p = ts1 @ t # ts2 \<and> cfd_configurations p (t_id t) = es1 @ e # es2
          \<and> (\<forall>t' \<in> set ts1. \<forall>e' \<in> set (cfd_configurations p (t_id t')). \<forall>h'.
               hostname e' = Some h' \<longrightarrow> (\<exists>z \<in> set (cf_zones p). z_name z = zone_name h'))
          \<and> (\<forall>e' \<in> set es1. \<forall>h'.
               hostname e' = Some h' \<longrightarrow> (\<exists>z \<in> set (cf_zones p). z_name z = zone_name h'))"
    have "desired p = Inl (ValueError (''zone '' @ zone_name h @ '' not found''))"
      by (rule desired_first_unresolved[of p ts1 t ts2 es1 e es2 h])
         (use c assms in blast)+
    then show "process p prompt w
               = (Some (ValueError (''zone '' @ zone_name h @ '' not found'')), w)"
      by (rule run)
  qed
  from first exact zone_name_drop[of h] show ?thesis by blast
qed

text \<open>
  Example 5 of the specification: the run ends with
  \<open>zone unknown-domain.test not found\<close> and has sent nothing.
\<close>

theorem zone_not_found_fatal_witness:
  "process example5_provider True
     \<lparr>desired_obj = Map.empty, current_obj = Map.empty, stdin = [''y'', ''y'', ''y''],
      calls = []\<rparr>
   = (Some (ValueError ''zone unknown-domain.test not found''),
      \<lparr>desired_obj = Map.empty, current_obj = Map.empty, stdin = [''y'', ''y'', ''y''],
       calls = []\<rparr>)"
proof -
  let ?t = "\<lparr>t_id = ''T1'', t_name = ''one''\<rparr>"
  let ?e = "\<lparr>hostname = Some ''x.unknown-domain.test''\<rparr>"
  let ?w = "\<lparr>desired_obj = Map.empty, current_obj = Map.empty, stdin = [''y'', ''y'', ''y''],
      calls = []\<rparr>"
  have h1: "?t \<in> set (cfd_tunnels example5_provider)"
    by (simp add: example5_provider_def)
  have h2: "?e \<in> set (cfd_configurations example5_provider (t_id ?t))"
    by (simp add: example5_provider_def)
  have h3: "hostname ?e = Some ''x.unknown-domain.test''" by simp
  have h4: "\<forall>z \<in> set (cf_zones example5_provider). z_name z \<noteq> zone_name ''x.unknown-domain.test''"
    by (simp add: example5_provider_def zone_name_examples)
  note inst = zone_not_found_fatal[OF h1 h2 h3 h4, of True ?w]
  from inst have "\<forall>ts1 ts2 es1 es2.
          cfd_tunnels example5_provider = ts1 @ ?t # ts2
          \<and> cfd_configurations example5_provider (t_id ?t) = es1 @ ?e # es2
          \<and> (\<forall>t' \<in> set ts1. \<forall>e' \<in> set (cfd_configurations example5_provider (t_id t')). \<forall>h'.
               hostname e' = Some h' \<longrightarrow>
               (\<exists>z \<in> set (cf_zones example5_provider). z_name z = zone_name h'))
          \<and> (\<forall>e' \<in> set es1. \<forall>h'.
               hostname e' = Some h' \<longrightarrow>
               (\<exists>z \<in> set (cf_zones example5_provider). z_name z = zone_name h'))
          \<longrightarrow> process example5_provider True ?w
               = (Some (ValueError (''zone '' @ zone_name ''x.unknown-domain.test'' @ '' not found'')), ?w)"
    by blast
  from this[rule_format, of "[]" "[]" "[]" "[]"] show ?thesis
    by (simp add: example5_provider_def zone_name_examples)
qed

lemma zone_name_to_id_first:
  "zone_name_to_id zs n = Inr zid \<Longrightarrow>
   \<exists>z. find (\<lambda>z. z_name z = n) zs = Some z \<and> zid = z_id z"
  by (induction zs) (auto split: if_splits)

section \<open>The desired map\<close>

text \<open>
  C7. When the apex domain of every ingress hostname names a zone, \<open>desired()\<close> returns
  a map whose keys are exactly the hostnames of the ingress rules that carry one (of all
  the tunnels listed), so a rule without hostname adds nothing; every record of the map
  has no id, the zone id resolved from the apex domain of its hostname (the id of the
  first listed zone whose name is that apex domain), type \<open>CNAME\<close>,
  proxiable and proxied true, ttl 1, and as content the id of a tunnel that routes the
  hostname followed by \<open>.cfargotunnel.com\<close>; the tunnel is the last one in the listing
  that routes the hostname (a later rule overwrites an earlier one); and the apex domain
  is the hostname without its first label and the dot after it.
\<close>

theorem desired_construction:
  assumes "\<forall>t \<in> set (cfd_tunnels p). \<forall>e \<in> set (cfd_configurations p (t_id t)). \<forall>h.
             hostname e = Some h \<longrightarrow> (\<exists>z \<in> set (cf_zones p). z_name z = zone_name h)"
  shows "\<exists>des. desired p = Inr des
    \<and> dom des = {h. \<exists>t \<in> set (cfd_tunnels p). \<exists>e \<in> set (cfd_configurations p (t_id t)).
                     hostname e = Some h}
    \<and> (\<forall>h r. des h = Some r \<longrightarrow>
          rec_id r = None
          \<and> zone_name_to_id (cf_zones p) (zone_name h) = Inr (zone_id r)
          \<and> (\<exists>z. find (\<lambda>z. z_name z = zone_name h) (cf_zones p) = Some z
                 \<and> zone_id r = z_id z)
          \<and> (\<exists>z \<in> set (cf_zones p). z_name z = zone_name h \<and> z_id z = zone_id r)
          \<and> rec_type r = ''CNAME'' \<and> proxiable r \<and> proxied r \<and> ttl r = 1
          \<and> (\<exists>t \<in> set (cfd_tunnels p).
                (\<exists>e \<in> set (cfd_configurations p (t_id t)). hostname e = Some h)
                \<and> content r = t_id t @ ''.cfargotunnel.com''))
    \<and> (\<forall>ts1 t ts2 h.
          cfd_tunnels p = ts1 @ t # ts2
          \<and> (\<exists>e \<in> set (cfd_configurations p (t_id t)). hostname e = Some h)
          \<and> (\<forall>t' \<in> set ts2. \<forall>e \<in> set (cfd_configurations p (t_id t')). hostname e \<noteq> Some h)
          \<longrightarrow> (\<exists>r. des h = Some r \<and> content r = t_id t @ ''.cfargotunnel.com''))
    \<and> (\<forall>h. zone_name h = drop (Suc (length (takeWhile (\<lambda>c. c \<noteq> CHR ''.'') h))) h)"
proof -
  have res: "(\<exists>z \<in> set (cf_zones p). z_name z = n) \<Longrightarrow>
      \<exists>zid. zone_name_to_id (cf_zones p) n = Inr zid" for n
    using zone_name_to_id_Inl_iff[of "cf_zones p" n]
    by (cases "zone_name_to_id (cf_zones p) n") auto
  have "\<exists>des. desired_tunnels p (cfd_tunnels p) Map.empty = Inr des"
    by (rule desired_tunnels_total) (use assms res in \<open>auto simp: in_hostnames\<close>)
  then obtain des where run: "desired_tunnels p (cfd_tunnels p) Map.empty = Inr des" ..
  then have d: "desired p = Inr des" by (simp add: desired_def)
  have last: "\<exists>r. des h = Some r \<and> content r = t_id t @ ''.cfargotunnel.com''"
    if "cfd_tunnels p = ts1 @ t # ts2"
      and "\<exists>e \<in> set (cfd_configurations p (t_id t)). hostname e = Some h"
      and "\<forall>t' \<in> set ts2. \<forall>e \<in> set (cfd_configurations p (t_id t')). hostname e \<noteq> Some h"
    for ts1 t ts2 h
  proof -
    from run that(1) have r: "desired_tunnels p (ts1 @ t # ts2) Map.empty = Inr des" by simp
    have a: "Some h \<in> hostname ` set (cfd_configurations p (t_id t))"
      using that(2) by (simp add: in_hostnames)
    have b: "\<forall>t' \<in> set ts2. Some h \<notin> hostname ` set (cfd_configurations p (t_id t'))"
      using that(3) by (simp add: in_hostnames)
    from desired_tunnels_last_wins[OF r a b] show ?thesis by auto
  qed
  have fields: "rec_id r = None
          \<and> zone_name_to_id (cf_zones p) (zone_name h) = Inr (zone_id r)
          \<and> (\<exists>z. find (\<lambda>z. z_name z = zone_name h) (cf_zones p) = Some z
                 \<and> zone_id r = z_id z)
          \<and> (\<exists>z \<in> set (cf_zones p). z_name z = zone_name h \<and> z_id z = zone_id r)
          \<and> rec_type r = ''CNAME'' \<and> proxiable r \<and> proxied r \<and> ttl r = 1
          \<and> (\<exists>t \<in> set (cfd_tunnels p).
                (\<exists>e \<in> set (cfd_configurations p (t_id t)). hostname e = Some h)
                \<and> content r = t_id t @ ''.cfargotunnel.com'')"
    if "des h = Some r" for h r
  proof -
    from desired_record_fields[OF d that] obtain t where
      t: "t \<in> set (cfd_tunnels p)"
        "Some h \<in> hostname ` set (cfd_configurations p (t_id t))"
      and z: "zone_name_to_id (cf_zones p) (zone_name h) = Inr (zone_id r)"
      and f: "rec_id r = None" "rec_type r = ''CNAME''"
        "content r = t_id t @ ''.cfargotunnel.com''" "proxiable r" "proxied r" "ttl r = 1"
      by blast
    from z have fz: "\<exists>z. find (\<lambda>z. z_name z = zone_name h) (cf_zones p) = Some z
                 \<and> zone_id r = z_id z"
      by (rule zone_name_to_id_first)
    from zone_name_to_id_Inr[OF z]
    have sz: "\<exists>z \<in> set (cf_zones p). z_name z = zone_name h \<and> z_id z = zone_id r" .
    from t(2) have "\<exists>e \<in> set (cfd_configurations p (t_id t)). hostname e = Some h"
      by (simp add: in_hostnames)
    with t(1) f z fz sz show ?thesis by blast
  qed
  have keys: "dom des = {h. \<exists>t \<in> set (cfd_tunnels p). \<exists>e \<in> set (cfd_configurations p (t_id t)).
                     hostname e = Some h}"
  proof (intro set_eqI iffI)
    fix h
    assume "h \<in> dom des"
    then obtain r where "des h = Some r" by auto
    from fields[OF this] show "h \<in> {h. \<exists>t \<in> set (cfd_tunnels p).
        \<exists>e \<in> set (cfd_configurations p (t_id t)). hostname e = Some h}"
      by blast
  next
    fix h
    assume "h \<in> {h. \<exists>t \<in> set (cfd_tunnels p).
        \<exists>e \<in> set (cfd_configurations p (t_id t)). hostname e = Some h}"
    then have "\<exists>t \<in> set (cfd_tunnels p).
        \<exists>e \<in> set (cfd_configurations p (t_id t)). hostname e = Some h"
      by simp
    from split_list_last_prop[OF this] obtain ts1 t ts2 where
      "cfd_tunnels p = ts1 @ t # ts2"
      "\<exists>e \<in> set (cfd_configurations p (t_id t)). hostname e = Some h"
      "\<forall>t' \<in> set ts2. \<not> (\<exists>e \<in> set (cfd_configurations p (t_id t')). hostname e = Some h)"
      by blast
    then have "\<exists>r. des h = Some r \<and> content r = t_id t @ ''.cfargotunnel.com''"
      by (intro last) auto
    then show "h \<in> dom des" by auto
  qed
  from d keys fields last zone_name_drop show ?thesis
    by blast
qed

text \<open>
  Both tunnels of the second example route \<open>app.example.com\<close>: the record is the one of
  the second tunnel, in zone \<open>Z1\<close> (\<open>example.com\<close>); the record of
  \<open>api.foo.example.com\<close> is in zone \<open>Z2\<close> (\<open>foo.example.com\<close>), the second zone listed;
  and the catch-all rules give no key.
\<close>

theorem desired_construction_witness:
  "\<exists>des. desired example2_provider = Inr des
     \<and> dom des = {''app.example.com'', ''api.foo.example.com''}
     \<and> (\<exists>r. des ''app.example.com'' = Some r \<and> content r = ''T2.cfargotunnel.com''
            \<and> zone_id r = ''Z1'' \<and> rec_id r = None \<and> rec_type r = ''CNAME''
            \<and> proxiable r \<and> proxied r \<and> ttl r = 1)
     \<and> (\<exists>r. des ''api.foo.example.com'' = Some r \<and> content r = ''T2.cfargotunnel.com''
            \<and> zone_id r = ''Z2'' \<and> rec_id r = None \<and> rec_type r = ''CNAME''
            \<and> proxiable r \<and> proxied r \<and> ttl r = 1)"
proof -
  let ?p = example2_provider
  let ?t1 = "\<lparr>t_id = ''T1'', t_name = ''one''\<rparr>"
  let ?t2 = "\<lparr>t_id = ''T2'', t_name = ''two''\<rparr>"
  have hyp: "\<forall>t \<in> set (cfd_tunnels ?p). \<forall>e \<in> set (cfd_configurations ?p (t_id t)). \<forall>h.
             hostname e = Some h \<longrightarrow> (\<exists>z \<in> set (cf_zones ?p). z_name z = zone_name h)"
    by (simp add: example2_provider_def zone_name_examples)
  from desired_construction[OF hyp] obtain des where
    d: "desired ?p = Inr des"
    and keys: "dom des = {h. \<exists>t \<in> set (cfd_tunnels ?p).
                 \<exists>e \<in> set (cfd_configurations ?p (t_id t)). hostname e = Some h}"
    and fields: "\<forall>h r. des h = Some r \<longrightarrow>
          rec_id r = None
          \<and> zone_name_to_id (cf_zones ?p) (zone_name h) = Inr (zone_id r)
          \<and> (\<exists>z. find (\<lambda>z. z_name z = zone_name h) (cf_zones ?p) = Some z
                 \<and> zone_id r = z_id z)
          \<and> (\<exists>z \<in> set (cf_zones ?p). z_name z = zone_name h \<and> z_id z = zone_id r)
          \<and> rec_type r = ''CNAME'' \<and> proxiable r \<and> proxied r \<and> ttl r = 1
          \<and> (\<exists>t \<in> set (cfd_tunnels ?p).
                (\<exists>e \<in> set (cfd_configurations ?p (t_id t)). hostname e = Some h)
                \<and> content r = t_id t @ ''.cfargotunnel.com'')"
    and last: "\<forall>ts1 t ts2 h.
          cfd_tunnels ?p = ts1 @ t # ts2
          \<and> (\<exists>e \<in> set (cfd_configurations ?p (t_id t)). hostname e = Some h)
          \<and> (\<forall>t' \<in> set ts2. \<forall>e \<in> set (cfd_configurations ?p (t_id t')). hostname e \<noteq> Some h)
          \<longrightarrow> (\<exists>r. des h = Some r \<and> content r = t_id t @ ''.cfargotunnel.com'')"
    by blast
  have k: "dom des = {''app.example.com'', ''api.foo.example.com''}"
    unfolding keys by (auto simp: example2_provider_def)
  have split: "cfd_tunnels ?p = [?t1] @ ?t2 # []"
    by (simp add: example2_provider_def)
  have "cfd_tunnels ?p = [?t1] @ ?t2 # []
          \<and> (\<exists>e \<in> set (cfd_configurations ?p (t_id ?t2)). hostname e = Some ''app.example.com'')
          \<and> (\<forall>t' \<in> set []. \<forall>e \<in> set (cfd_configurations ?p (t_id t')).
                hostname e \<noteq> Some ''app.example.com'')"
    using split by (simp add: example2_provider_def)
  with last obtain r where r: "des ''app.example.com'' = Some r"
    and c: "content r = t_id ?t2 @ ''.cfargotunnel.com''"
    by blast
  from fields r have f: "rec_id r = None
          \<and> (\<exists>z. find (\<lambda>z. z_name z = zone_name ''app.example.com'') (cf_zones ?p) = Some z
                 \<and> zone_id r = z_id z)
          \<and> rec_type r = ''CNAME'' \<and> proxiable r \<and> proxied r \<and> ttl r = 1"
    by blast
  then have z: "zone_id r = ''Z1''"
    by (auto simp: example2_provider_def zone_name_examples)
  have "cfd_tunnels ?p = [?t1] @ ?t2 # []
          \<and> (\<exists>e \<in> set (cfd_configurations ?p (t_id ?t2)).
                hostname e = Some ''api.foo.example.com'')
          \<and> (\<forall>t' \<in> set []. \<forall>e \<in> set (cfd_configurations ?p (t_id t')).
                hostname e \<noteq> Some ''api.foo.example.com'')"
    using split by (simp add: example2_provider_def)
  with last obtain r2 where r2: "des ''api.foo.example.com'' = Some r2"
    and c2: "content r2 = t_id ?t2 @ ''.cfargotunnel.com''"
    by blast
  from fields r2 have f2: "rec_id r2 = None
          \<and> (\<exists>z. find (\<lambda>z. z_name z = zone_name ''api.foo.example.com'') (cf_zones ?p) = Some z
                 \<and> zone_id r2 = z_id z)
          \<and> rec_type r2 = ''CNAME'' \<and> proxiable r2 \<and> proxied r2 \<and> ttl r2 = 1"
    by blast
  then have z2: "zone_id r2 = ''Z2''"
    by (auto simp: example2_provider_def zone_name_examples)
  from d k r c f z r2 c2 f2 z2 show ?thesis by simp
qed

section \<open>Hostnames of a single label\<close>

text \<open>
  C9. For a hostname \<open>h\<close> without a dot the apex domain is the empty string; looking it
  up fails exactly when no zone has the empty name, with the error \<open>zone  not found\<close>;
  so \<open>desired()\<close> fails with a zone-not-found error when an ingress rule carries \<open>h\<close>
  and no zone has the empty name, and with that very error when the hostnames reached
  before \<open>h\<close> resolve.
\<close>

theorem single_label_hostname:
  assumes "CHR ''.'' \<notin> set h"
  shows "zone_name h = []
    \<and> ((\<exists>err. zone_name_to_id zs (zone_name h) = Inl err) \<longleftrightarrow> (\<forall>z \<in> set zs. z_name z \<noteq> []))
    \<and> ((\<forall>z \<in> set zs. z_name z \<noteq> [])
         \<longrightarrow> zone_name_to_id zs (zone_name h) = Inl (ValueError ''zone  not found''))
    \<and> (\<forall>p t e. t \<in> set (cfd_tunnels p) \<and> e \<in> set (cfd_configurations p (t_id t))
          \<and> hostname e = Some h \<and> (\<forall>z \<in> set (cf_zones p). z_name z \<noteq> [])
          \<longrightarrow> (\<exists>h'. desired p = Inl (ValueError (''zone '' @ zone_name h' @ '' not found''))))
    \<and> (\<forall>p ts1 t ts2 es1 e es2.
          cfd_tunnels p = ts1 @ t # ts2 \<and> cfd_configurations p (t_id t) = es1 @ e # es2
          \<and> hostname e = Some h \<and> (\<forall>z \<in> set (cf_zones p). z_name z \<noteq> [])
          \<and> (\<forall>t' \<in> set ts1. \<forall>e' \<in> set (cfd_configurations p (t_id t')). \<forall>h'.
               hostname e' = Some h' \<longrightarrow> (\<exists>z \<in> set (cf_zones p). z_name z = zone_name h'))
          \<and> (\<forall>e' \<in> set es1. \<forall>h'.
               hostname e' = Some h' \<longrightarrow> (\<exists>z \<in> set (cf_zones p). z_name z = zone_name h'))
          \<longrightarrow> desired p = Inl (ValueError ''zone  not found''))"
proof -
  from assms have tw: "takeWhile (\<lambda>c. c \<noteq> CHR ''.'') h = h"
    by (auto simp: takeWhile_eq_all_conv)
  have apex: "zone_name h = []"
    by (subst zone_name_drop) (simp add: tw)
  have iff: "(\<exists>err. zone_name_to_id zs (zone_name h) = Inl err) \<longleftrightarrow> (\<forall>z \<in> set zs. z_name z \<noteq> [])"
    unfolding apex by (rule zone_name_to_id_Inl_iff)
  have miss: "(\<forall>z \<in> set zs. z_name z \<noteq> [])
         \<longrightarrow> zone_name_to_id zs (zone_name h) = Inl (ValueError ''zone  not found'')"
    unfolding apex using zone_name_to_id_missing[of zs "[]"] by simp
  have some: "\<forall>p t e. t \<in> set (cfd_tunnels p) \<and> e \<in> set (cfd_configurations p (t_id t))
          \<and> hostname e = Some h \<and> (\<forall>z \<in> set (cf_zones p). z_name z \<noteq> [])
          \<longrightarrow> (\<exists>h'. desired p = Inl (ValueError (''zone '' @ zone_name h' @ '' not found'')))"
  proof (intro allI impI)
    fix p :: provider and t e
    assume a: "t \<in> set (cfd_tunnels p) \<and> e \<in> set (cfd_configurations p (t_id t))
          \<and> hostname e = Some h \<and> (\<forall>z \<in> set (cf_zones p). z_name z \<noteq> [])"
    then have "\<forall>z \<in> set (cf_zones p). z_name z \<noteq> zone_name h"
      by (simp add: apex)
    with a desired_some_unresolved[of t p e h]
    show "\<exists>h'. desired p = Inl (ValueError (''zone '' @ zone_name h' @ '' not found''))"
      by blast
  qed
  have first: "\<forall>p ts1 t ts2 es1 e es2.
          cfd_tunnels p = ts1 @ t # ts2 \<and> cfd_configurations p (t_id t) = es1 @ e # es2
          \<and> hostname e = Some h \<and> (\<forall>z \<in> set (cf_zones p). z_name z \<noteq> [])
          \<and> (\<forall>t' \<in> set ts1. \<forall>e' \<in> set (cfd_configurations p (t_id t')). \<forall>h'.
               hostname e' = Some h' \<longrightarrow> (\<exists>z \<in> set (cf_zones p). z_name z = zone_name h'))
          \<and> (\<forall>e' \<in> set es1. \<forall>h'.
               hostname e' = Some h' \<longrightarrow> (\<exists>z \<in> set (cf_zones p). z_name z = zone_name h'))
          \<longrightarrow> desired p = Inl (ValueError ''zone  not found'')"
  proof (intro allI impI)
    fix p :: provider and ts1 t ts2 es1 e es2
    assume a: "cfd_tunnels p = ts1 @ t # ts2 \<and> cfd_configurations p (t_id t) = es1 @ e # es2
          \<and> hostname e = Some h \<and> (\<forall>z \<in> set (cf_zones p). z_name z \<noteq> [])
          \<and> (\<forall>t' \<in> set ts1. \<forall>e' \<in> set (cfd_configurations p (t_id t')). \<forall>h'.
               hostname e' = Some h' \<longrightarrow> (\<exists>z \<in> set (cf_zones p). z_name z = zone_name h'))
          \<and> (\<forall>e' \<in> set es1. \<forall>h'.
               hostname e' = Some h' \<longrightarrow> (\<exists>z \<in> set (cf_zones p). z_name z = zone_name h'))"
    then have un: "\<forall>z \<in> set (cf_zones p). z_name z \<noteq> zone_name h"
      by (simp add: apex)
    have "desired p = Inl (ValueError (''zone '' @ zone_name h @ '' not found''))"
      by (rule desired_first_unresolved[of p ts1 t ts2 es1 e es2 h]) (use a un in blast)+
    then show "desired p = Inl (ValueError ''zone  not found'')"
      by (simp add: apex)
  qed
  from apex iff miss some first show ?thesis by blast
qed

text \<open>
  The hostname \<open>localhost\<close> in an account whose only zone is \<open>example.com\<close>.
\<close>

theorem single_label_hostname_witness:
  "zone_name ''localhost'' = []
   \<and> zone_name_to_id (cf_zones example9_provider) (zone_name ''localhost'')
       = Inl (ValueError ''zone  not found'')
   \<and> desired example9_provider = Inl (ValueError ''zone  not found'')"
proof -
  let ?p = example9_provider
  let ?t = "\<lparr>t_id = ''T1'', t_name = ''one''\<rparr>"
  let ?e = "\<lparr>hostname = Some ''localhost''\<rparr>"
  have h: "CHR ''.'' \<notin> set ''localhost''" by simp
  note inst = single_label_hostname[OF h, of "cf_zones ?p"]
  have nz: "\<forall>z \<in> set (cf_zones ?p). z_name z \<noteq> []"
    by (simp add: example9_provider_def)
  from inst have a: "zone_name ''localhost'' = []" by blast
  from inst nz have b: "zone_name_to_id (cf_zones ?p) (zone_name ''localhost'')
       = Inl (ValueError ''zone  not found'')"
    by blast
  from inst have "\<forall>p ts1 t ts2 es1 e es2.
          cfd_tunnels p = ts1 @ t # ts2 \<and> cfd_configurations p (t_id t) = es1 @ e # es2
          \<and> hostname e = Some ''localhost'' \<and> (\<forall>z \<in> set (cf_zones p). z_name z \<noteq> [])
          \<and> (\<forall>t' \<in> set ts1. \<forall>e' \<in> set (cfd_configurations p (t_id t')). \<forall>h'.
               hostname e' = Some h' \<longrightarrow> (\<exists>z \<in> set (cf_zones p). z_name z = zone_name h'))
          \<and> (\<forall>e' \<in> set es1. \<forall>h'.
               hostname e' = Some h' \<longrightarrow> (\<exists>z \<in> set (cf_zones p). z_name z = zone_name h'))
          \<longrightarrow> desired p = Inl (ValueError ''zone  not found'')"
    by blast
  from this[rule_format, of ?p "[]" ?t "[]" "[]" ?e "[]"]
  have c: "desired ?p = Inl (ValueError ''zone  not found'')"
    by (simp add: example9_provider_def)
  from a b c show ?thesis by simp
qed

end
